theory Spec2Isabelle
  imports Complex_Main "HOL-Library.Multiset"
begin

section \<open>Dates\<close>

text \<open>
  A JavaScript \<open>Date\<close> is its time value: the milliseconds since the epoch, an integer.
  Only valid dates are modelled. \<open>getDay\<close> and \<open>setHours\<close> read the local calendar; the
  engine is handed times normalised to one reference zone, which is taken to be UTC, so
  a calendar day is a block of \<open>dayInMs\<close> milliseconds. 1 January 1970 was a Thursday
  (day 4; Sunday is day 0).
\<close>

definition dayInMs :: int where
  "dayInMs = 24 * 60 * 60 * 1000"

definition getDay :: "int \<Rightarrow> int" where
  "getDay t = (t div dayInMs + 4) mod 7"

text \<open>
  \<open>d.setHours(h, 0, 0, 0)\<close> for a whole number of hours: the same calendar day, at \<open>h\<close>
  o'clock sharp (an \<open>h\<close> beyond 23 reaches into the next day, as in the source).
\<close>

definition setHours :: "int \<Rightarrow> int \<Rightarrow> int" where
  "setHours t h = (t div dayInMs) * dayInMs + h * (60 * 60 * 1000)"

text \<open>\<open>a.toDateString() === b.toDateString()\<close>: both fall on one calendar day.\<close>

definition sameDateString :: "int \<Rightarrow> int \<Rightarrow> bool" where
  "sameDateString a b = (a div dayInMs = b div dayInMs)"

section \<open>Data\<close>

text \<open>
  The declarations of \<open>ITimetableEntry\<close>, \<open>IRecurringPattern\<close> and \<open>IFreeTimeSlot\<close>
  (shared/src/types) are read off the places that build and use them: the object
  literals of \<open>TimeUtils\<close>, the mapping in the controller and the Mongoose schema. An entry
  and a free slot share the fields \<open>startTime\<close>, \<open>endTime\<close> and \<open>dayOfWeek\<close>, which are kept
  in a common parent record so that both use the source's field names. The fields of an
  entry that no modelled function reads (\<open>_id\<close>, \<open>type\<close>, \<open>room\<close>, \<open>instructor\<close>, the
  timestamps) are left out. The pattern's field \<open>endDate\<close> is named \<open>pattern_endDate\<close>, to
  keep \<open>endDate\<close> for the end of the queried range, as the functions name it.
\<close>

record IRecurringPattern =
  frequency :: string
  interval :: int
  pattern_endDate :: "int option"
  daysOfWeek :: "int list"

record ITimed =
  startTime :: int
  endTime :: int
  dayOfWeek :: int

record ITimetableEntry = ITimed +
  userId :: string
  subject :: string
  isRecurring :: bool
  recurringPattern :: "IRecurringPattern option"

record IFreeTimeSlot = ITimed +
  duration :: rat
  isAvailable :: bool

record workingHours =
  wh_start :: int
  wh_end :: int

definition defaultWorkingHours :: workingHours where
  "defaultWorkingHours = \<lparr>wh_start = 8, wh_end = 22\<rparr>"

section \<open>TimeUtils.calculateFreeTimeSlots\<close>

text \<open>
  One turn of the inner loop pushes at most one slot: the gap from \<open>currentTime\<close> to
  \<open>slotEnd\<close>, when it is not empty and lasts at least 30 minutes. The duration is the
  quotient of the millisecond difference by 60000, kept as an exact rational. The source
  computes it in floating point, which is exact when the difference is a whole number
  of minutes; otherwise the quotient is at least 1/60000 away from every integer, far
  more than the rounding, so a comparison with an integer number of minutes is the
  same on both.
\<close>

definition pushGap :: "int \<Rightarrow> int \<Rightarrow> int \<Rightarrow> IFreeTimeSlot list" where
  "pushGap currentTime slotEnd dow =
     (if currentTime < slotEnd then
        (let d = of_int (slotEnd - currentTime) / (1000 * 60) in
         if d \<ge> 30 then
           [\<lparr>startTime = currentTime, endTime = slotEnd, dayOfWeek = dow,
             duration = d, isAvailable = True\<rparr>]
         else [])
      else [])"

text \<open>
  The inner loop \<open>for (i = 0; i <= dayEntries.length; i++)\<close>: for each entry of the day, the
  gap before its start, then \<open>currentTime\<close> becomes its end; the last turn
  (\<open>i = dayEntries.length\<close>) takes the gap up to \<open>endOfDay\<close>.
\<close>

fun findGaps :: "int \<Rightarrow> int \<Rightarrow> int \<Rightarrow> ITimetableEntry list \<Rightarrow> IFreeTimeSlot list" where
  "findGaps currentTime endOfDay dow [] = pushGap currentTime endOfDay dow"
| "findGaps currentTime endOfDay dow (e # es) =
     pushGap currentTime (startTime e) dow @ findGaps (endTime e) endOfDay dow es"

definition dayEntries :: "ITimetableEntry list \<Rightarrow> int \<Rightarrow> ITimetableEntry list" where
  "dayEntries sortedEntries currentDate =
     filter (\<lambda>entry. dayOfWeek entry = getDay currentDate) sortedEntries"

text \<open>The body of the outer loop: the slots pushed for one date of the range.\<close>

definition daySlots :: "ITimetableEntry list \<Rightarrow> workingHours \<Rightarrow> int \<Rightarrow> IFreeTimeSlot list" where
  "daySlots sortedEntries wh currentDate =
     findGaps (setHours currentDate (wh_start wh)) (setHours currentDate (wh_end wh))
       (getDay currentDate) (dayEntries sortedEntries currentDate)"

text \<open>
  The header of the outer loop,
  \<open>for (currentDate = new Date(startDate); currentDate <= endDate; currentDate += dayInMs)\<close>:
  the dates it visits, in order. The body never changes \<open>currentDate\<close>.
\<close>

function rangeDates :: "int \<Rightarrow> int \<Rightarrow> int list" where
  "rangeDates currentDate endDate =
     (if currentDate \<le> endDate then currentDate # rangeDates (currentDate + dayInMs) endDate
      else [])"
  by pat_completeness auto
termination
  by (relation "measure (\<lambda>(c, e). nat (e - c + 1))") (auto simp: dayInMs_def)

declare rangeDates.simps [simp del]

text \<open>
  \<open>Array.prototype.sort\<close> sorts the array it is called on, in place and stably, and
  returns that same array. The model therefore returns two things: the free slots, and
  the caller's array as the call leaves it. The comparator is the difference of the start
  times, so the sort is by \<open>startTime\<close>; \<open>sort_key\<close> is a stable sort.
\<close>

definition calculateFreeTimeSlots ::
  "ITimetableEntry list \<Rightarrow> int \<Rightarrow> int \<Rightarrow> workingHours
     \<Rightarrow> IFreeTimeSlot list \<times> ITimetableEntry list" where
  "calculateFreeTimeSlots timetableEntries startDate endDate wh =
     (let sortedEntries = sort_key startTime timetableEntries in
      (concat (map (daySlots sortedEntries wh) (rangeDates startDate endDate)),
       sortedEntries))"

section \<open>TimeUtils.findCommonFreeSlots\<close>

text \<open>The body of the double loop of \<open>intersectFreeSlots\<close>, for one pair of slots.\<close>

definition pushOverlap :: "IFreeTimeSlot \<Rightarrow> IFreeTimeSlot \<Rightarrow> IFreeTimeSlot list" where
  "pushOverlap slot1 slot2 =
     (let overlapStart = max (startTime slot1) (startTime slot2);
          overlapEnd = min (endTime slot1) (endTime slot2)
      in if overlapStart < overlapEnd then
           (let d = of_int (overlapEnd - overlapStart) / (1000 * 60) in
            if d \<ge> 30 then
              [\<lparr>startTime = overlapStart, endTime = overlapEnd, dayOfWeek = dayOfWeek slot1,
                duration = d, isAvailable = True\<rparr>]
            else [])
         else [])"

definition intersectFreeSlots :: "IFreeTimeSlot list \<Rightarrow> IFreeTimeSlot list \<Rightarrow> IFreeTimeSlot list" where
  "intersectFreeSlots slots1 slots2 =
     concat (map (\<lambda>slot1. concat (map (\<lambda>slot2. pushOverlap slot1 slot2) slots2)) slots1)"

fun findCommonFreeSlots :: "IFreeTimeSlot list list \<Rightarrow> IFreeTimeSlot list" where
  "findCommonFreeSlots [] = []"
| "findCommonFreeSlots [slots] = slots"
| "findCommonFreeSlots (slots # rest) = foldl intersectFreeSlots slots rest"

section \<open>The timetable model: the range query and occursOnDate\<close>

text \<open>
  The selection of \<open>Timetable.findByUserAndDateRange\<close>, as a predicate on one stored
  entry: a one-off entry that starts inside the range, or a recurring one whose pattern
  has no end date or one not before the start of the range.
\<close>

definition inDateRangeQuery :: "string \<Rightarrow> int \<Rightarrow> int \<Rightarrow> ITimetableEntry \<Rightarrow> bool" where
  "inDateRangeQuery uid startDate endDate entry =
     (userId entry = uid \<and>
      (if isRecurring entry then
         (case recurringPattern entry of
            None \<Rightarrow> True
          | Some pattern \<Rightarrow>
              (case pattern_endDate pattern of None \<Rightarrow> True | Some d \<Rightarrow> startDate \<le> d))
       else startDate \<le> startTime entry \<and> startTime entry \<le> endDate))"

text \<open>
  \<open>weeksDiff % n === 0\<close> for a \<open>weeksDiff\<close> that is not negative: false when \<open>n\<close> is
  zero (the remainder is NaN).
\<close>

definition remainderIsZero :: "int \<Rightarrow> int \<Rightarrow> bool" where
  "remainderIsZero weeksDiff n = (n \<noteq> 0 \<and> weeksDiff mod n = 0)"

definition occursOnDate :: "ITimetableEntry \<Rightarrow> int \<Rightarrow> bool" where
  "occursOnDate this date =
     (let entryDate = startTime this in
      if \<not> isRecurring this then sameDateString entryDate date
      else
        (case recurringPattern this of
           None \<Rightarrow> False
         | Some pattern \<Rightarrow>
             if (case pattern_endDate pattern of None \<Rightarrow> False | Some d \<Rightarrow> date > d) then False
             else if getDay date \<noteq> dayOfWeek this then False
             else
               (let weeksDiff = (date - entryDate) div (7 * dayInMs) in
                if frequency pattern = ''weekly'' then
                  weeksDiff \<ge> 0 \<and> remainderIsZero weeksDiff (interval pattern)
                else if frequency pattern = ''biweekly'' then
                  weeksDiff \<ge> 0 \<and> remainderIsZero weeksDiff (2 * interval pattern)
                else if frequency pattern = ''monthly'' then
                  weeksDiff \<ge> 0 \<and> remainderIsZero weeksDiff (4 * interval pattern)
                else False)))"

section \<open>The controller: the minimum duration asked for\<close>










section \<open>Intervals of a result\<close>

text \<open>
  A common interval is a span of time with its length: the start, the end and the
  duration of a slot. The \<open>dayOfWeek\<close> of a slot is a label that \<open>intersectFreeSlots\<close>
  copies from the slot of its first argument.
\<close>

definition commonIntervals :: "IFreeTimeSlot list \<Rightarrow> (int \<times> int \<times> rat) set" where
  "commonIntervals slots = (\<lambda>slot. (startTime slot, endTime slot, duration slot)) ` set slots"

text \<open>Two slots overlap when each starts before the other ends.\<close>

definition slotsOverlap :: "IFreeTimeSlot \<Rightarrow> IFreeTimeSlot \<Rightarrow> bool" where
  "slotsOverlap a b = (startTime a < endTime b \<and> startTime b < endTime a)"

text \<open>An instant is free in a result when one of its slots holds it.\<close>

definition freeAt :: "IFreeTimeSlot list \<Rightarrow> int \<Rightarrow> bool" where
  "freeAt slots t = list_ex (\<lambda>slot. startTime slot \<le> t \<and> t < endTime slot) slots"

section \<open>Example data\<close>

text \<open>
  Monday 15 January 2024, 00:00 UTC, is 1705276800000; the Monday after is 1705881600000.
  \<open>mondayClass\<close> is the entry of the README: Data Structures, 09:00 to 10:30 on that
  Monday, not recurring. \<open>weeklyClass\<close> is held at the same time, weekly, until Tuesday 16
  January; \<open>staleClass\<close> has the same pattern and is dated on the Monday after, beyond
  the pattern's end. \<open>earlyClass\<close> (06:00 to 07:00) is over before the working hours
  begin; \<open>dawnClass\<close> (07:00 to 09:00) begins before them and ends inside;
  \<open>nightClass\<close> (22:30 to 23:30) begins after they end. \<open>longClass\<close> lasts from 08:45
  to 21:00.
  \<open>brokenClass\<close> carries a recurrence that the schema would reject: an unknown frequency
  and the interval 0.
\<close>

definition jan15 :: int where
  "jan15 = 1705276800000"

definition jan22 :: int where
  "jan22 = 1705881600000"

definition hourInMs :: int where
  "hourInMs = 3600000"

definition mondayClass :: ITimetableEntry where
  "mondayClass =
     \<lparr>startTime = jan15 + 9 * hourInMs, endTime = jan15 + 10 * hourInMs + 1800000,
      dayOfWeek = 1, userId = ''u1'', subject = ''Data Structures'', isRecurring = False,
      recurringPattern = None\<rparr>"

definition weeklyClass :: ITimetableEntry where
  "weeklyClass =
     \<lparr>startTime = jan15 + 9 * hourInMs, endTime = jan15 + 10 * hourInMs + 1800000,
      dayOfWeek = 1, userId = ''u1'', subject = ''Algorithms'', isRecurring = True,
      recurringPattern = Some \<lparr>frequency = ''weekly'', interval = 1,
        pattern_endDate = Some (jan15 + dayInMs), daysOfWeek = []\<rparr>\<rparr>"

definition earlyClass :: ITimetableEntry where
  "earlyClass =
     \<lparr>startTime = jan15 + 6 * hourInMs, endTime = jan15 + 7 * hourInMs,
      dayOfWeek = 1, userId = ''u1'', subject = ''Swimming'', isRecurring = False,
      recurringPattern = None\<rparr>"

definition nightClass :: ITimetableEntry where
  "nightClass =
     \<lparr>startTime = jan15 + 22 * hourInMs + 1800000, endTime = jan15 + 23 * hourInMs + 1800000,
      dayOfWeek = 1, userId = ''u1'', subject = ''Astronomy'', isRecurring = False,
      recurringPattern = None\<rparr>"

definition longClass :: ITimetableEntry where
  "longClass =
     \<lparr>startTime = jan15 + 8 * hourInMs + 2700000, endTime = jan15 + 21 * hourInMs,
      dayOfWeek = 1, userId = ''u1'', subject = ''Field Trip'', isRecurring = False,
      recurringPattern = None\<rparr>"

definition dawnClass :: ITimetableEntry where
  "dawnClass =
     \<lparr>startTime = jan15 + 7 * hourInMs, endTime = jan15 + 9 * hourInMs,
      dayOfWeek = 1, userId = ''u1'', subject = ''Rowing'', isRecurring = False,
      recurringPattern = None\<rparr>"

definition staleClass :: ITimetableEntry where
  "staleClass =
     \<lparr>startTime = jan22 + 9 * hourInMs, endTime = jan22 + 10 * hourInMs + 1800000,
      dayOfWeek = 1, userId = ''u1'', subject = ''Algorithms'', isRecurring = True,
      recurringPattern = Some \<lparr>frequency = ''weekly'', interval = 1,
        pattern_endDate = Some (jan15 + dayInMs), daysOfWeek = []\<rparr>\<rparr>"

definition brokenPattern :: IRecurringPattern where
  "brokenPattern =
     \<lparr>frequency = ''yearly'', interval = 0, pattern_endDate = None, daysOfWeek = []\<rparr>"

definition brokenClass :: ITimetableEntry where
  "brokenClass =
     \<lparr>startTime = jan15 + 9 * hourInMs, endTime = jan15 + 10 * hourInMs + 1800000,
      dayOfWeek = 1, userId = ''u1'', subject = ''Data Structures'', isRecurring = True,
      recurringPattern = Some brokenPattern\<rparr>"

lemmas example_defs =
  jan15_def jan22_def hourInMs_def dayInMs_def mondayClass_def weeklyClass_def earlyClass_def
  nightClass_def longClass_def dawnClass_def staleClass_def brokenPattern_def brokenClass_def defaultWorkingHours_def

lemmas sweep_defs =
  daySlots_def dayEntries_def getDay_def setHours_def pushGap_def Let_def


section \<open>Dates of the range\<close>

lemma rangeDates_single:
  assumes "startDate \<le> endDate" "endDate < startDate + dayInMs"
  shows "rangeDates startDate endDate = [startDate]"
proof -
  have "rangeDates (startDate + dayInMs) endDate = []"
    using assms by (subst rangeDates.simps) simp
  then show ?thesis
    using assms by (subst rangeDates.simps) simp
qed

lemma same_day_div:
  assumes "m mod dayInMs = 0" "m \<le> t" "t < m + dayInMs"
  shows "t div dayInMs = m div dayInMs"
proof -
  have pos: "0 < dayInMs" by (simp add: dayInMs_def)
  from assms(1) obtain k where k: "m = dayInMs * k" by auto
  have r: "(t - m) div dayInMs = 0"
    using assms(2,3) by (simp add: div_pos_pos_trivial)
  have "t = (t - m) + k * dayInMs" using k by simp
  moreover have "(t - m + k * dayInMs) div dayInMs = k + (t - m) div dayInMs"
    using pos by (intro div_mult_self1) simp
  ultimately have "t div dayInMs = k" using r by simp
  then show ?thesis using k pos by simp
qed

lemma midnight_floor:
  "m mod dayInMs = 0 \<Longrightarrow> (m div dayInMs) * dayInMs = m"
  by (simp add: mod_eq_0_iff_dvd)

lemma rangeDates_week:
  "rangeDates jan15 jan22 =
     [jan15, jan15 + dayInMs, jan15 + 2 * dayInMs, jan15 + 3 * dayInMs, jan15 + 4 * dayInMs,
      jan15 + 5 * dayInMs, jan15 + 6 * dayInMs, jan22]"
  by (simp add: rangeDates.simps jan15_def jan22_def dayInMs_def)

lemma rangeDates_one: "rangeDates jan15 jan15 = [jan15]"
  by (simp add: rangeDates_single dayInMs_def)

section \<open>One day's sweep\<close>

lemma pushGap_cases:
  "pushGap c s dow = [] \<or>
   pushGap c s dow = [\<lparr>startTime = c, endTime = s, dayOfWeek = dow,
        duration = of_int (s - c) / (1000 * 60), isAvailable = True\<rparr>]
     \<and> c < s \<and> (30::rat) \<le> of_int (s - c) / (1000 * 60)"
  by (simp add: pushGap_def Let_def)

lemma in_pushGap:
  assumes "slot \<in> set (pushGap c s dow)"
  shows "startTime slot = c" "endTime slot = s" "dayOfWeek slot = dow"
    "duration slot = of_int (s - c) / (1000 * 60)" "30 \<le> duration slot" "c < s"
    "isAvailable slot"
  using assms pushGap_cases [of c s dow] by auto

lemma in_findGaps_bounds:
  assumes "slot \<in> set (findGaps c eod dow es)"
  shows "startTime slot \<in> insert c (endTime ` set es)"
    and "endTime slot \<in> insert eod (startTime ` set es)"
  using assms
  by (induction es arbitrary: c) (auto dest: in_pushGap(1,2))



lemma findGaps_chain:
  assumes "sorted (map startTime es)" "\<forall>e\<in>set es. startTime e \<le> endTime e"
  shows "sorted_wrt (\<lambda>a b. endTime a \<le> startTime b) (findGaps c eod dow es)"
  using assms
proof (induction es arbitrary: c)
  case Nil
  show ?case using pushGap_cases [of c eod dow] by auto
next
  case (Cons e es)
  have later: "startTime e \<le> startTime b" if "b \<in> set (findGaps (endTime e) eod dow es)" for b
  proof -
    from in_findGaps_bounds(1) [OF that]
    consider "startTime b = endTime e" | x where "x \<in> set es" "startTime b = endTime x"
      by auto
    then show ?thesis
    proof cases
      case 1
      then show ?thesis using Cons.prems(2) by simp
    next
      case 2
      then have "startTime e \<le> startTime x" "startTime x \<le> endTime x"
        using Cons.prems by auto
      then show ?thesis using 2 by simp
    qed
  qed
  have "sorted_wrt (\<lambda>a b. endTime a \<le> startTime b) (findGaps (endTime e) eod dow es)"
    using Cons by simp
  moreover have "sorted_wrt (\<lambda>a b. endTime a \<le> startTime b) (pushGap c (startTime e) dow)"
    using pushGap_cases [of c "startTime e" dow] by auto
  ultimately show ?case
    using later by (auto simp: sorted_wrt_append in_pushGap)
qed

lemma sorted_dayEntries: "sorted (map startTime (dayEntries (sort_key startTime es) d))"
  unfolding dayEntries_def by (rule sorted_filter) simp

lemma set_dayEntries:
  "set (dayEntries (sort_key startTime es) d) = {e \<in> set es. dayOfWeek e = getDay d}"
  by (auto simp: dayEntries_def)


section \<open>Entries that differ in fields the sweep does not read\<close>

lemma insort_key_map_same:
  assumes "\<And>x. f (h x) = f x"
  shows "insort_key f (h x) (map h ys) = map h (insort_key f x ys)"
  by (induction ys) (simp_all add: assms)

lemma sort_key_map_same:
  assumes "\<And>x. f (h x) = f x"
  shows "sort_key f (map h xs) = map h (sort_key f xs)"
proof (induction xs)
  case Nil
  show ?case by simp
next
  case (Cons x xs)
  show ?case
    using insort_key_map_same [of f h x "sort_key f xs"] assms Cons by simp
qed

lemma findGaps_map_same:
  assumes "\<And>x. startTime (h x) = startTime x" "\<And>x. endTime (h x) = endTime x"
  shows "findGaps c eod dow (map h es) = findGaps c eod dow es"
  by (induction es arbitrary: c) (simp_all add: assms)

lemma daySlots_map_same:
  assumes "\<And>x. startTime (h x) = startTime x" "\<And>x. endTime (h x) = endTime x"
    "\<And>x. dayOfWeek (h x) = dayOfWeek x"
  shows "daySlots (map h es) wh d = daySlots es wh d"
  unfolding daySlots_def dayEntries_def filter_map o_def assms(3)
  by (rule findGaps_map_same [OF assms(1,2)])

section \<open>The intersection of two and of three lists\<close>

lemma half_hour_iff: "(30::rat) \<le> of_int k / (1000 * 60) \<longleftrightarrow> 1800000 \<le> k"
  by (simp add: le_divide_eq)

lemma pushOverlap_eq:
  "pushOverlap x y =
     (if 1800000 \<le> min (endTime x) (endTime y) - max (startTime x) (startTime y) then
       [\<lparr>startTime = max (startTime x) (startTime y), endTime = min (endTime x) (endTime y),
          dayOfWeek = dayOfWeek x,
          duration = of_int (min (endTime x) (endTime y) - max (startTime x) (startTime y))
             / (1000 * 60),
          isAvailable = True\<rparr>]
      else [])"
proof -
  let ?k = "min (endTime x) (endTime y) - max (startTime x) (startTime y)"
  have "(max (startTime x) (startTime y) < min (endTime x) (endTime y)
      \<and> (30::rat) \<le> of_int ?k / (1000 * 60)) \<longleftrightarrow> 1800000 \<le> ?k"
    unfolding half_hour_iff by linarith
  then show ?thesis
    unfolding pushOverlap_def Let_def by (simp only: half_hour_iff split: if_splits) auto
qed

lemma in_intersectFreeSlots:
  "w \<in> set (intersectFreeSlots X Y) \<longleftrightarrow> (\<exists>x\<in>set X. \<exists>y\<in>set Y. w \<in> set (pushOverlap x y))"
  by (auto simp: intersectFreeSlots_def)



lemma commonIntervals_two:
  "(s, e, d) \<in> commonIntervals (intersectFreeSlots X Y) \<longleftrightarrow>
     d = of_int (e - s) / (1000 * 60) \<and> 1800000 \<le> e - s \<and>
     (\<exists>x\<in>set X. \<exists>y\<in>set Y.
        s = max (startTime x) (startTime y) \<and> e = min (endTime x) (endTime y))"
  (is "?L \<longleftrightarrow> ?R")
proof
  assume ?L
  then obtain w where w: "w \<in> set (intersectFreeSlots X Y)"
    "s = startTime w" "e = endTime w" "d = duration w"
    by (auto simp: commonIntervals_def)
  then obtain x y where xy: "x \<in> set X" "y \<in> set Y" "w \<in> set (pushOverlap x y)"
    by (auto simp: in_intersectFreeSlots)
  from xy(3) show ?R
    unfolding pushOverlap_eq using w(2-4) xy(1,2) by (auto split: if_splits)
next
  assume ?R
  then obtain x y where xy: "x \<in> set X" "y \<in> set Y"
    "s = max (startTime x) (startTime y)" "e = min (endTime x) (endTime y)"
    and d: "d = of_int (e - s) / (1000 * 60)" "1800000 \<le> e - s"
    by blast
  let ?w = "\<lparr>startTime = s, endTime = e, dayOfWeek = dayOfWeek x, duration = d,
     isAvailable = True\<rparr>"
  have "?w \<in> set (pushOverlap x y)"
    unfolding pushOverlap_eq using xy(3,4) d by simp
  then have "?w \<in> set (intersectFreeSlots X Y)"
    using xy(1,2) in_intersectFreeSlots by blast
  then have "(startTime ?w, endTime ?w, duration ?w) \<in> commonIntervals (intersectFreeSlots X Y)"
    unfolding commonIntervals_def by (rule imageI)
  then show ?L by simp
qed

lemma commonIntervals_three:
  "(s, e, d) \<in> commonIntervals (intersectFreeSlots (intersectFreeSlots X Y) Z) \<longleftrightarrow>
     d = of_int (e - s) / (1000 * 60) \<and> 1800000 \<le> e - s \<and>
     (\<exists>x\<in>set X. \<exists>y\<in>set Y. \<exists>z\<in>set Z.
        s = max (startTime x) (max (startTime y) (startTime z)) \<and>
        e = min (endTime x) (min (endTime y) (endTime z)))"
  (is "?L \<longleftrightarrow> ?R")
proof
  assume ?L
  then obtain w z where wz: "w \<in> set (intersectFreeSlots X Y)" "z \<in> set Z"
    "s = max (startTime w) (startTime z)" "e = min (endTime w) (endTime z)"
    and d: "d = of_int (e - s) / (1000 * 60)" "1800000 \<le> e - s"
    unfolding commonIntervals_two by blast
  have "(startTime w, endTime w, duration w) \<in> commonIntervals (intersectFreeSlots X Y)"
    unfolding commonIntervals_def using wz(1) by (rule imageI)
  then obtain x y where xy: "x \<in> set X" "y \<in> set Y"
    "startTime w = max (startTime x) (startTime y)" "endTime w = min (endTime x) (endTime y)"
    unfolding commonIntervals_two by blast
  have "s = max (startTime x) (max (startTime y) (startTime z))"
    "e = min (endTime x) (min (endTime y) (endTime z))"
    using wz(3,4) xy(3,4) by (simp_all add: max.assoc min.assoc)
  then show ?R using d xy(1,2) wz(2) by blast
next
  assume ?R
  then obtain x y z where xyz: "x \<in> set X" "y \<in> set Y" "z \<in> set Z"
    "s = max (startTime x) (max (startTime y) (startTime z))"
    "e = min (endTime x) (min (endTime y) (endTime z))"
    and d: "d = of_int (e - s) / (1000 * 60)" "1800000 \<le> e - s"
    by blast
  let ?s = "max (startTime x) (startTime y)" and ?e = "min (endTime x) (endTime y)"
  have "1800000 \<le> ?e - ?s" using d(2) xyz(4,5) by linarith
  then have "(?s, ?e, of_int (?e - ?s) / (1000 * 60)) \<in> commonIntervals (intersectFreeSlots X Y)"
    unfolding commonIntervals_two using xyz(1,2) by blast
  then obtain w where w: "w \<in> set (intersectFreeSlots X Y)" "startTime w = ?s" "endTime w = ?e"
    unfolding commonIntervals_def by auto
  have "s = max (startTime w) (startTime z)" "e = min (endTime w) (endTime z)"
    using xyz(4,5) w(2,3) by (simp_all add: max.assoc min.assoc)
  then show ?L
    unfolding commonIntervals_two [of s e d] using d w(1) xyz(3) by blast
qed

lemma three_rotate_imp:
  assumes "(s, e, d) \<in> commonIntervals (intersectFreeSlots (intersectFreeSlots X Y) Z)"
  shows "(s, e, d) \<in> commonIntervals (intersectFreeSlots (intersectFreeSlots Y Z) X)"
proof -
  from assms obtain x y z where xyz: "x \<in> set X" "y \<in> set Y" "z \<in> set Z"
    "s = max (startTime x) (max (startTime y) (startTime z))"
    "e = min (endTime x) (min (endTime y) (endTime z))"
    and d: "d = of_int (e - s) / (1000 * 60)" "1800000 \<le> e - s"
    unfolding commonIntervals_three by blast
  have "s = max (startTime y) (max (startTime z) (startTime x))"
    "e = min (endTime y) (min (endTime z) (endTime x))"
    using xyz(4,5) by (simp_all add: max.left_commute max.commute min.left_commute min.commute)
  then show ?thesis
    unfolding commonIntervals_three using d xyz(1-3) by blast
qed

lemma three_swap_imp:
  assumes "(s, e, d) \<in> commonIntervals (intersectFreeSlots (intersectFreeSlots X Y) Z)"
  shows "(s, e, d) \<in> commonIntervals (intersectFreeSlots (intersectFreeSlots Y X) Z)"
proof -
  from assms obtain x y z where xyz: "x \<in> set X" "y \<in> set Y" "z \<in> set Z"
    "s = max (startTime x) (max (startTime y) (startTime z))"
    "e = min (endTime x) (min (endTime y) (endTime z))"
    and d: "d = of_int (e - s) / (1000 * 60)" "1800000 \<le> e - s"
    unfolding commonIntervals_three by blast
  have "s = max (startTime y) (max (startTime x) (startTime z))"
    "e = min (endTime y) (min (endTime x) (endTime z))"
    using xyz(4,5) by (simp_all add: max.left_commute min.left_commute)
  then show ?thesis
    unfolding commonIntervals_three using d xyz(1-3) by blast
qed

lemma commonIntervals_three_rotate:
  "commonIntervals (intersectFreeSlots (intersectFreeSlots X Y) Z) =
   commonIntervals (intersectFreeSlots (intersectFreeSlots Y Z) X)"
proof (intro set_eqI iffI)
  fix p assume "p \<in> commonIntervals (intersectFreeSlots (intersectFreeSlots X Y) Z)"
  then show "p \<in> commonIntervals (intersectFreeSlots (intersectFreeSlots Y Z) X)"
    by (cases p) (simp add: three_rotate_imp)
next
  fix p assume "p \<in> commonIntervals (intersectFreeSlots (intersectFreeSlots Y Z) X)"
  then show "p \<in> commonIntervals (intersectFreeSlots (intersectFreeSlots X Y) Z)"
    by (cases p) (simp add: three_rotate_imp)
qed

lemma commonIntervals_three_swap:
  "commonIntervals (intersectFreeSlots (intersectFreeSlots X Y) Z) =
   commonIntervals (intersectFreeSlots (intersectFreeSlots Y X) Z)"
proof (intro set_eqI iffI)
  fix p assume "p \<in> commonIntervals (intersectFreeSlots (intersectFreeSlots X Y) Z)"
  then show "p \<in> commonIntervals (intersectFreeSlots (intersectFreeSlots Y X) Z)"
    by (cases p) (simp add: three_swap_imp)
next
  fix p assume "p \<in> commonIntervals (intersectFreeSlots (intersectFreeSlots Y X) Z)"
  then show "p \<in> commonIntervals (intersectFreeSlots (intersectFreeSlots X Y) Z)"
    by (cases p) (simp add: three_swap_imp)
qed

lemma two_commute_imp:
  assumes "(s, e, d) \<in> commonIntervals (intersectFreeSlots X Y)"
  shows "(s, e, d) \<in> commonIntervals (intersectFreeSlots Y X)"
proof -
  from assms obtain x y where xy: "x \<in> set X" "y \<in> set Y"
    "s = max (startTime x) (startTime y)" "e = min (endTime x) (endTime y)"
    and d: "d = of_int (e - s) / (1000 * 60)" "1800000 \<le> e - s"
    unfolding commonIntervals_two by blast
  have "s = max (startTime y) (startTime x)" "e = min (endTime y) (endTime x)"
    using xy(3,4) by (simp_all add: max.commute min.commute)
  then show ?thesis
    unfolding commonIntervals_two using d xy(1,2) by blast
qed

lemma commonIntervals_commute:
  "commonIntervals (intersectFreeSlots X Y) = commonIntervals (intersectFreeSlots Y X)"
proof (intro set_eqI iffI)
  fix p assume "p \<in> commonIntervals (intersectFreeSlots X Y)"
  then show "p \<in> commonIntervals (intersectFreeSlots Y X)"
    by (cases p) (simp add: two_commute_imp)
next
  fix p assume "p \<in> commonIntervals (intersectFreeSlots Y X)"
  then show "p \<in> commonIntervals (intersectFreeSlots X Y)"
    by (cases p) (simp add: two_commute_imp)
qed

section \<open>An entry added to the list\<close>

lemma freeAt_append: "freeAt (xs @ ys) t \<longleftrightarrow> freeAt xs t \<or> freeAt ys t"
  by (auto simp: freeAt_def list_ex_iff)

lemma freeAt_concat: "freeAt (concat xss) t \<longleftrightarrow> (\<exists>xs\<in>set xss. freeAt xs t)"
  by (auto simp: freeAt_def list_ex_iff)

lemma freeAt_pushGap:
  "freeAt (pushGap c s dow) t \<longleftrightarrow> c \<le> t \<and> t < s \<and> 1800000 \<le> s - c"
  unfolding pushGap_def Let_def half_hour_iff
  by (auto simp: freeAt_def)

lemma findGaps_insert:
  assumes "endTime e + 1800000 \<le> t \<or> t + 1800000 \<le> startTime e"
    and "freeAt (findGaps c eod dow (pre @ post)) t"
  shows "freeAt (findGaps c eod dow (pre @ e # post)) t"
  using assms(2)
proof (induction pre arbitrary: c)
  case Nil
  show ?case
  proof (cases post)
    case Nil
    with Nil.prems assms(1) show ?thesis
      by (auto simp: freeAt_append freeAt_pushGap)
  next
    case (Cons y ys)
    with Nil.prems assms(1) show ?thesis
      by (auto simp: freeAt_append freeAt_pushGap)
  qed
next
  case (Cons y pre)
  then show ?case
    by (auto simp: freeAt_append)
qed

lemma insort_key_split:
  "\<exists>pre post. insort_key f e zs = pre @ e # post \<and> zs = pre @ post"
proof (induction zs)
  case Nil
  show ?case by simp
next
  case (Cons z zs)
  then obtain pre post where p: "insort_key f e zs = pre @ e # post" "zs = pre @ post"
    by blast
  show ?case
  proof (cases "f e \<le> f z")
    case True
    then have "insort_key f e (z # zs) = [] @ e # (z # zs)" by simp
    then show ?thesis by blast
  next
    case False
    then have "insort_key f e (z # zs) = (z # pre) @ e # post" "z # zs = (z # pre) @ post"
      using p by simp_all
    then show ?thesis by blast
  qed
qed

lemma insort_key_beside:
  assumes "sorted (map f (pre @ e # post))"
  shows "\<exists>pre' post'. insort_key f x (pre @ e # post) = pre' @ e # post'
      \<and> insort_key f x (pre @ post) = pre' @ post'"
  using assms
proof (induction pre)
  case Nil
  show ?case
  proof (cases "f x \<le> f e")
    case True
    have "\<forall>y\<in>set post. f x \<le> f y"
      using Nil.prems True by auto
    then have "insort_key f x post = x # post"
      by (rule insort_is_Cons)
    then have "insort_key f x ([] @ e # post) = [x] @ e # post"
      "insort_key f x ([] @ post) = [x] @ post"
      using True by simp_all
    then show ?thesis by blast
  next
    case False
    then have "insort_key f x ([] @ e # post) = [] @ e # insort_key f x post"
      "insort_key f x ([] @ post) = [] @ insort_key f x post"
      by simp_all
    then show ?thesis by blast
  qed
next
  case (Cons y pre)
  then obtain pre' post' where p: "insort_key f x (pre @ e # post) = pre' @ e # post'"
    "insort_key f x (pre @ post) = pre' @ post'"
    by auto
  show ?case
  proof (cases "f x \<le> f y")
    case True
    then have "insort_key f x ((y # pre) @ e # post) = (x # y # pre) @ e # post"
      "insort_key f x ((y # pre) @ post) = (x # y # pre) @ post"
      by simp_all
    then show ?thesis by blast
  next
    case False
    then have "insort_key f x ((y # pre) @ e # post) = (y # pre') @ e # post'"
      "insort_key f x ((y # pre) @ post) = (y # pre') @ post'"
      using p by simp_all
    then show ?thesis by blast
  qed
qed

lemma sort_key_split:
  "\<exists>pre post. sort_key f (es1 @ e # es2) = pre @ e # post \<and> sort_key f (es1 @ es2) = pre @ post"
proof (induction es1)
  case Nil
  show ?case using insort_key_split [of f e "sort_key f es2"] by simp
next
  case (Cons x es1)
  then obtain pre post where p: "sort_key f (es1 @ e # es2) = pre @ e # post"
    "sort_key f (es1 @ es2) = pre @ post"
    by blast
  have "sorted (map f (pre @ e # post))"
    using sorted_sort_key [of f "es1 @ e # es2"] unfolding p(1) .
  from insort_key_beside [OF this, of x] p show ?case
    by simp
qed

lemma daySlots_insert:
  assumes "endTime e + 1800000 \<le> t \<or> t + 1800000 \<le> startTime e"
    and "freeAt (daySlots (sort_key startTime (es1 @ es2)) wh d) t"
  shows "freeAt (daySlots (sort_key startTime (es1 @ e # es2)) wh d) t"
proof -
  obtain pre post where p: "sort_key startTime (es1 @ e # es2) = pre @ e # post"
    "sort_key startTime (es1 @ es2) = pre @ post"
    using sort_key_split [of startTime es1 e es2] by blast
  let ?P = "\<lambda>entry::ITimetableEntry. dayOfWeek entry = getDay d"
  show ?thesis
  proof (cases "?P e")
    case False
    then have "dayEntries (sort_key startTime (es1 @ e # es2)) d
        = dayEntries (sort_key startTime (es1 @ es2)) d"
      unfolding dayEntries_def p by simp
    then show ?thesis using assms(2) by (simp add: daySlots_def)
  next
    case True
    then have w: "dayEntries (sort_key startTime (es1 @ e # es2)) d
        = filter ?P pre @ e # filter ?P post"
      unfolding dayEntries_def p by simp
    have wo: "dayEntries (sort_key startTime (es1 @ es2)) d = filter ?P pre @ filter ?P post"
      unfolding dayEntries_def p by simp
    show ?thesis
      using assms(2) unfolding daySlots_def w wo
      by (rule findGaps_insert [OF assms(1)])
  qed
qed

lemma calc_insert:
  assumes "endTime e + 1800000 \<le> t \<or> t + 1800000 \<le> startTime e"
    and "freeAt (fst (calculateFreeTimeSlots (es1 @ es2) startDate endDate wh)) t"
  shows "freeAt (fst (calculateFreeTimeSlots (es1 @ e # es2) startDate endDate wh)) t"
proof -
  from assms(2) obtain d where d: "d \<in> set (rangeDates startDate endDate)"
    "freeAt (daySlots (sort_key startTime (es1 @ es2)) wh d) t"
    unfolding calculateFreeTimeSlots_def Let_def fst_conv freeAt_concat by auto
  have "freeAt (daySlots (sort_key startTime (es1 @ e # es2)) wh d) t"
    by (rule daySlots_insert [OF assms(1) d(2)])
  with d(1) show ?thesis
    unfolding calculateFreeTimeSlots_def Let_def fst_conv freeAt_concat by auto
qed

lemma day_bounds: "(t div dayInMs) * dayInMs \<le> t \<and> t < (t div dayInMs + 1) * dayInMs"
proof -
  have d: "(t div dayInMs) * dayInMs + t mod dayInMs = t" by simp
  have m: "0 \<le> t mod dayInMs" "t mod dayInMs < dayInMs"
    by (simp_all add: dayInMs_def)
  have "(t div dayInMs + 1) * dayInMs = (t div dayInMs) * dayInMs + dayInMs"
    by (simp add: algebra_simps)
  with d m show ?thesis by linarith
qed

lemma same_weekday_week_apart:
  assumes "(a + 4) mod 7 = (b + 4) mod (7::int)" "a \<noteq> b"
  shows "a + 7 \<le> b \<or> b + 7 \<le> a"
proof -
  have "7 dvd (a + 4) - (b + 4)"
    using assms(1) by (simp only: mod_eq_dvd_iff)
  then obtain k where k: "(a + 4) - (b + 4) = 7 * k" by (auto simp: dvd_def)
  with assms(2) have "k \<noteq> 0" by auto
  then have "k \<le> - 1 \<or> 1 \<le> k" by linarith
  with k show ?thesis by linarith
qed

lemma other_date_same_weekday_is_away:
  assumes own: "endTime e \<le> (startTime e div dayInMs + 1) * dayInMs"
    and wd: "getDay t = getDay (startTime e)"
    and other: "\<not> sameDateString (startTime e) t"
  shows "endTime e + 1800000 \<le> t \<or> t + 1800000 \<le> startTime e"
proof -
  define a where "a = startTime e div dayInMs"
  define b where "b = t div dayInMs"
  have ab: "a + 7 \<le> b \<or> b + 7 \<le> a"
    using wd other unfolding getDay_def sameDateString_def a_def b_def
    by (intro same_weekday_week_apart) auto
  have s: "a * dayInMs \<le> startTime e" and tb: "b * dayInMs \<le> t" "t < (b + 1) * dayInMs"
    using day_bounds [of "startTime e"] day_bounds [of t] unfolding a_def b_def by simp_all
  have e: "endTime e \<le> (a + 1) * dayInMs"
    using own unfolding a_def .
  from ab show ?thesis
  proof
    assume "a + 7 \<le> b"
    then have "(a + 7) * dayInMs \<le> b * dayInMs"
      by (simp add: dayInMs_def)
    with e tb(1) have "endTime e + 1800000 \<le> t"
      by (simp add: dayInMs_def algebra_simps)
    then show ?thesis ..
  next
    assume "b + 7 \<le> a"
    then have "(b + 7) * dayInMs \<le> a * dayInMs"
      by (simp add: dayInMs_def)
    with s tb(2) have "t + 1800000 \<le> startTime e"
      by (simp add: dayInMs_def algebra_simps)
    then show ?thesis ..
  qed
qed

lemma daySlots_other_weekday:
  assumes "dayOfWeek e \<noteq> getDay d"
  shows "daySlots (sort_key startTime (es1 @ e # es2)) wh d
       = daySlots (sort_key startTime (es1 @ es2)) wh d"
proof -
  obtain pre post where p: "sort_key startTime (es1 @ e # es2) = pre @ e # post"
    "sort_key startTime (es1 @ es2) = pre @ post"
    using sort_key_split [of startTime es1 e es2] by blast
  have "dayEntries (sort_key startTime (es1 @ e # es2)) d
      = dayEntries (sort_key startTime (es1 @ es2)) d"
    unfolding dayEntries_def p using assms by simp
  then show ?thesis by (simp add: daySlots_def)
qed

lemma in_intersectFreeSlots_origin:
  assumes "w \<in> set (intersectFreeSlots X Y)"
  shows "\<exists>x\<in>set X. dayOfWeek w = dayOfWeek x \<and> startTime x \<le> startTime w
           \<and> endTime w \<le> endTime x"
proof -
  from assms obtain x y where xy: "x \<in> set X" "y \<in> set Y" "w \<in> set (pushOverlap x y)"
    unfolding in_intersectFreeSlots by blast
  from xy(3) have "dayOfWeek w = dayOfWeek x \<and> startTime x \<le> startTime w
      \<and> endTime w \<le> endTime x"
    unfolding pushOverlap_eq by (auto split: if_splits)
  with xy(1) show ?thesis by blast
qed

section \<open>The examples, evaluated\<close>

lemma mondayClass_two_mondays: "fst (calculateFreeTimeSlots [mondayClass] jan15 jan22 defaultWorkingHours) =
    [\<lparr>startTime = 1705305600000, endTime = 1705309200000, dayOfWeek = 1,
       duration = 60, isAvailable = True\<rparr>,
     \<lparr>startTime = 1705314600000, endTime = 1705356000000, dayOfWeek = 1,
       duration = 690, isAvailable = True\<rparr>,
     \<lparr>startTime = 1705392000000, endTime = 1705442400000, dayOfWeek = 2,
       duration = 840, isAvailable = True\<rparr>,
     \<lparr>startTime = 1705478400000, endTime = 1705528800000, dayOfWeek = 3,
       duration = 840, isAvailable = True\<rparr>,
     \<lparr>startTime = 1705564800000, endTime = 1705615200000, dayOfWeek = 4,
       duration = 840, isAvailable = True\<rparr>,
     \<lparr>startTime = 1705651200000, endTime = 1705701600000, dayOfWeek = 5,
       duration = 840, isAvailable = True\<rparr>,
     \<lparr>startTime = 1705737600000, endTime = 1705788000000, dayOfWeek = 6,
       duration = 840, isAvailable = True\<rparr>,
     \<lparr>startTime = 1705824000000, endTime = 1705874400000, dayOfWeek = 0,
       duration = 840, isAvailable = True\<rparr>,
     \<lparr>startTime = 1705314600000, endTime = 1705960800000, dayOfWeek = 1,
       duration = 10770, isAvailable = True\<rparr>]"
  unfolding calculateFreeTimeSlots_def Let_def rangeDates_week
  by (simp add: sweep_defs example_defs)


lemma earlyClass_one_day: "fst (calculateFreeTimeSlots [earlyClass] jan15 jan15 defaultWorkingHours) =
    [\<lparr>startTime = 1705302000000, endTime = 1705356000000, dayOfWeek = 1,
       duration = 900, isAvailable = True\<rparr>]"
  unfolding calculateFreeTimeSlots_def Let_def rangeDates_one
  by (simp add: sweep_defs example_defs)

lemma no_entry_two_mondays:
  "fst (calculateFreeTimeSlots [] jan15 jan22 defaultWorkingHours) =
    [\<lparr>startTime = 1705305600000, endTime = 1705356000000, dayOfWeek = 1,
       duration = 840, isAvailable = True\<rparr>,
     \<lparr>startTime = 1705392000000, endTime = 1705442400000, dayOfWeek = 2,
       duration = 840, isAvailable = True\<rparr>,
     \<lparr>startTime = 1705478400000, endTime = 1705528800000, dayOfWeek = 3,
       duration = 840, isAvailable = True\<rparr>,
     \<lparr>startTime = 1705564800000, endTime = 1705615200000, dayOfWeek = 4,
       duration = 840, isAvailable = True\<rparr>,
     \<lparr>startTime = 1705651200000, endTime = 1705701600000, dayOfWeek = 5,
       duration = 840, isAvailable = True\<rparr>,
     \<lparr>startTime = 1705737600000, endTime = 1705788000000, dayOfWeek = 6,
       duration = 840, isAvailable = True\<rparr>,
     \<lparr>startTime = 1705824000000, endTime = 1705874400000, dayOfWeek = 0,
       duration = 840, isAvailable = True\<rparr>,
     \<lparr>startTime = 1705910400000, endTime = 1705960800000, dayOfWeek = 1,
       duration = 840, isAvailable = True\<rparr>]"
  unfolding calculateFreeTimeSlots_def Let_def rangeDates_week
  by (simp add: sweep_defs example_defs)


section \<open>The claims\<close>

text \<open>
  C1. One commitment on a Monday from 09:00 to 10:30, working hours 08:00 to 22:00, a
  range that holds only that Monday: the free slots are exactly 08:00 to 09:00 (60
  minutes) and 10:30 to 22:00 (690 minutes). Here \<open>monday\<close> is the midnight that opens
  the day, and the range is any \<open>startDate \<le> endDate\<close> inside that day. The 30-minute
  minimum is the constant written in the function.
\<close>

theorem scenario_one_commitment:
  assumes monday: "monday mod dayInMs = 0" "getDay monday = 1"
    and range: "monday \<le> startDate" "startDate \<le> endDate" "endDate < monday + dayInMs"
    and entry: "startTime e = monday + 9 * 3600000" "endTime e = monday + 10 * 3600000 + 1800000"
      "dayOfWeek e = 1"
  shows "fst (calculateFreeTimeSlots [e] startDate endDate \<lparr>wh_start = 8, wh_end = 22\<rparr>) =
    [\<lparr>startTime = monday + 8 * 3600000, endTime = monday + 9 * 3600000, dayOfWeek = 1,
       duration = 60, isAvailable = True\<rparr>,
     \<lparr>startTime = monday + 10 * 3600000 + 1800000, endTime = monday + 22 * 3600000,
       dayOfWeek = 1, duration = 690, isAvailable = True\<rparr>]"
proof -
  have d: "startDate div dayInMs = monday div dayInMs"
    using monday(1) range by (intro same_day_div) auto
  have day: "getDay startDate = 1"
    using monday(2) d by (simp add: getDay_def)
  have h: "setHours startDate h = monday + h * 3600000" for h
    using d midnight_floor [OF monday(1)] by (simp add: setHours_def)
  have one: "endDate < startDate + dayInMs"
    using range by simp
  have loop: "rangeDates startDate endDate = [startDate]"
    by (rule rangeDates_single [OF range(2) one])
  have g1: "pushGap (monday + 8 * 3600000) (monday + 9 * 3600000) 1 =
    [\<lparr>startTime = monday + 8 * 3600000, endTime = monday + 9 * 3600000, dayOfWeek = 1,
       duration = 60, isAvailable = True\<rparr>]"
    by (simp add: pushGap_def Let_def)
  have g2: "pushGap (monday + 10 * 3600000 + 1800000) (monday + 22 * 3600000) 1 =
     [\<lparr>startTime = monday + 10 * 3600000 + 1800000, endTime = monday + 22 * 3600000,
       dayOfWeek = 1, duration = 690, isAvailable = True\<rparr>]"
    by (simp add: pushGap_def Let_def)
  have "daySlots [e] \<lparr>wh_start = 8, wh_end = 22\<rparr> startDate =
     pushGap (monday + 8 * 3600000) (monday + 9 * 3600000) 1
       @ pushGap (monday + 10 * 3600000 + 1800000) (monday + 22 * 3600000) 1"
    using entry day by (simp add: daySlots_def dayEntries_def h)
  also have "\<dots> = [\<lparr>startTime = monday + 8 * 3600000, endTime = monday + 9 * 3600000,
       dayOfWeek = 1, duration = 60, isAvailable = True\<rparr>,
     \<lparr>startTime = monday + 10 * 3600000 + 1800000, endTime = monday + 22 * 3600000,
       dayOfWeek = 1, duration = 690, isAvailable = True\<rparr>]"
    unfolding g1 g2 by simp
  finally show ?thesis
    by (simp add: calculateFreeTimeSlots_def loop)
qed

theorem scenario_one_commitment_witness:
  "jan15 mod dayInMs = 0 \<and> getDay jan15 = 1 \<and>
   fst (calculateFreeTimeSlots [mondayClass] jan15 jan15 \<lparr>wh_start = 8, wh_end = 22\<rparr>) =
    [\<lparr>startTime = 1705305600000, endTime = 1705309200000, dayOfWeek = 1,
       duration = 60, isAvailable = True\<rparr>,
     \<lparr>startTime = 1705314600000, endTime = 1705356000000,
       dayOfWeek = 1, duration = 690, isAvailable = True\<rparr>]"
proof -
  have m: "jan15 mod dayInMs = 0" "getDay jan15 = 1"
    by (simp_all add: jan15_def dayInMs_def getDay_def)
  have e: "startTime mondayClass = jan15 + 9 * 3600000"
    "endTime mondayClass = jan15 + 10 * 3600000 + 1800000" "dayOfWeek mondayClass = 1"
    by (simp_all add: mondayClass_def hourInMs_def)
  have r: "jan15 \<le> jan15" "jan15 < jan15 + dayInMs"
    by (simp_all add: dayInMs_def)
  show ?thesis
    using scenario_one_commitment [OF m r(1) r(1) r(2) e] m
    by (simp add: jan15_def)
qed

text \<open>
  Within the sweep of one date the free intervals never overlap: each ends no later
  than the next begins. This holds for every list of entries whose start is not after
  their end, overlapping and back-to-back ones included; the order by start time is
  what keeps the slots of one sweep apart.
\<close>

lemma day_sweep_slots_disjoint:
  assumes "\<forall>entry\<in>set es. startTime entry \<le> endTime entry"
  shows "fst (calculateFreeTimeSlots es startDate endDate wh) =
           concat (map (daySlots (sort_key startTime es) wh) (rangeDates startDate endDate))
    \<and> (\<forall>d. sorted_wrt (\<lambda>a b. endTime a \<le> startTime b)
            (daySlots (sort_key startTime es) wh d))"
proof -
  have "sorted_wrt (\<lambda>a b. endTime a \<le> startTime b) (daySlots (sort_key startTime es) wh d)"
    for d
    unfolding daySlots_def
    by (rule findGaps_chain [OF sorted_dayEntries]) (use assms in \<open>simp add: set_dayEntries\<close>)
  then show ?thesis
    by (simp add: calculateFreeTimeSlots_def Let_def)
qed

text \<open>
  C2. No two free intervals of one person on one day should overlap. Across the dates
  of a range they do. Over the eight days from Monday 15 January to Monday 22 January,
  with the one entry \<open>mondayClass\<close>, the sweep of the second Monday takes the entry with
  the timestamps of the first, on a date where \<open>occursOnDate\<close> says it does not occur:
  the cursor goes back to 15 January 10:30 and the last slot runs from there to
  22 January 22:00. That slot and the slot 10:30 to 22:00 of the first Monday start on
  the same calendar day, carry the same \<open>dayOfWeek\<close>, and overlap.
\<close>

theorem two_mondays_slots_overlap:
  "\<not> occursOnDate mondayClass jan22
   \<and> fst (calculateFreeTimeSlots [mondayClass] jan15 jan22 defaultWorkingHours) ! 1 =
     \<lparr>startTime = 1705314600000, endTime = 1705356000000, dayOfWeek = 1,
       duration = 690, isAvailable = True\<rparr>
   \<and> fst (calculateFreeTimeSlots [mondayClass] jan15 jan22 defaultWorkingHours) ! 8 =
     \<lparr>startTime = 1705314600000, endTime = 1705960800000, dayOfWeek = 1,
       duration = 10770, isAvailable = True\<rparr>
   \<and> slotsOverlap
       \<lparr>startTime = 1705314600000, endTime = 1705356000000, dayOfWeek = 1,
         duration = 690, isAvailable = True\<rparr>
       \<lparr>startTime = 1705314600000, endTime = 1705960800000, dayOfWeek = 1,
         duration = 10770, isAvailable = True\<rparr>
   \<and> sameDateString 1705314600000 1705314600000"
  unfolding mondayClass_two_mondays
  by (simp add: slotsOverlap_def sameDateString_def occursOnDate_def example_defs)




text \<open>
  C4. A commitment occupies time on the calendar date of its own interval only: the
  function never moves an entry to another date, it sweeps it with its own timestamps.
  Adding a commitment to the entries takes no free instant away on another date of the
  same weekday, for a commitment whose interval lies on one calendar date; more
  exactly, it takes none away at any instant that lies 30 minutes or more before its
  start or after its end (the 30 minutes are the short gap next to the commitment, which
  is dropped). A sweep of another weekday does not see the commitment at all. This
  holds for every entry, whatever its \<open>isRecurring\<close>, at every place in the array, for
  every range and working hours; so a commitment whose date is outside the range
  occupies nothing in it.
\<close>

theorem commitment_occupies_own_date_only:
  "(endTime e \<le> (startTime e div dayInMs + 1) * dayInMs
      \<and> getDay t = getDay (startTime e) \<and> \<not> sameDateString (startTime e) t
      \<and> freeAt (fst (calculateFreeTimeSlots (es1 @ es2) startDate endDate wh)) t
     \<longrightarrow> freeAt (fst (calculateFreeTimeSlots (es1 @ e # es2) startDate endDate wh)) t)
   \<and> ((endTime e + 1800000 \<le> t \<or> t + 1800000 \<le> startTime e)
      \<and> freeAt (fst (calculateFreeTimeSlots (es1 @ es2) startDate endDate wh)) t
     \<longrightarrow> freeAt (fst (calculateFreeTimeSlots (es1 @ e # es2) startDate endDate wh)) t)
   \<and> (dayOfWeek e \<noteq> getDay d
     \<longrightarrow> daySlots (sort_key startTime (es1 @ e # es2)) wh d
         = daySlots (sort_key startTime (es1 @ es2)) wh d)"
  using calc_insert [of e t es1 es2 startDate endDate wh]
    other_date_same_weekday_is_away [of e t] daySlots_other_weekday [of e d es1 es2 wh]
  by blast

theorem commitment_occupies_own_date_only_witness:
  "endTime mondayClass \<le> (startTime mondayClass div dayInMs + 1) * dayInMs
   \<and> getDay (jan22 + 9 * hourInMs + 1800000) = getDay (startTime mondayClass)
   \<and> \<not> sameDateString (startTime mondayClass) (jan22 + 9 * hourInMs + 1800000)
   \<and> freeAt (fst (calculateFreeTimeSlots [] jan15 jan22 defaultWorkingHours))
        (jan22 + 9 * hourInMs + 1800000)
   \<and> freeAt (fst (calculateFreeTimeSlots [mondayClass] jan15 jan22 defaultWorkingHours))
        (jan22 + 9 * hourInMs + 1800000)"
proof -
  have h: "endTime mondayClass \<le> (startTime mondayClass div dayInMs + 1) * dayInMs"
    "getDay (jan22 + 9 * hourInMs + 1800000) = getDay (startTime mondayClass)"
    "\<not> sameDateString (startTime mondayClass) (jan22 + 9 * hourInMs + 1800000)"
    by (simp_all add: getDay_def sameDateString_def example_defs)
  have f: "freeAt (fst (calculateFreeTimeSlots ([] @ []) jan15 jan22 defaultWorkingHours))
        (jan22 + 9 * hourInMs + 1800000)"
    unfolding append_Nil no_entry_two_mondays by (simp add: freeAt_def example_defs)
  show ?thesis
    using commitment_occupies_own_date_only [of mondayClass "jan22 + 9 * hourInMs + 1800000"
        "[]" "[]" jan15 jan22 defaultWorkingHours] h f
    by simp
qed

text \<open>
  C5. A weekly commitment should not count after the end date of its pattern; the
  method \<open>occursOnDate\<close> of the timetable schema says so. \<open>calculateFreeTimeSlots\<close> never
  reads \<open>recurringPattern\<close>, and the range query keeps a recurring entry whenever the end
  date is not before the start of the range. \<open>staleClass\<close> is weekly until 16 January and
  dated Monday 22 January, 09:00 to 10:30: over the range from 15 to 22 January the
  query selects it, the sweep of 22 January takes it, and 09:30 on 22 January, free
  without the entry, is in no free slot with it. \<open>weeklyClass\<close>, dated 15 January with
  the same pattern, leaves that instant free: no entry is ever moved to a later week.
\<close>

theorem weekly_commitment_occupies_after_end_date:
  "isRecurring staleClass
   \<and> recurringPattern staleClass = Some \<lparr>frequency = ''weekly'', interval = 1,
        pattern_endDate = Some (jan15 + dayInMs), daysOfWeek = []\<rparr>
   \<and> jan15 + dayInMs < startTime staleClass
   \<and> inDateRangeQuery ''u1'' jan15 jan22 staleClass
   \<and> \<not> occursOnDate staleClass (jan22 + 9 * hourInMs)
   \<and> daySlots [staleClass] defaultWorkingHours jan22 =
       [\<lparr>startTime = 1705910400000, endTime = 1705914000000, dayOfWeek = 1,
          duration = 60, isAvailable = True\<rparr>,
        \<lparr>startTime = 1705919400000, endTime = 1705960800000, dayOfWeek = 1,
          duration = 690, isAvailable = True\<rparr>]
   \<and> daySlots [] defaultWorkingHours jan22 =
       [\<lparr>startTime = 1705910400000, endTime = 1705960800000, dayOfWeek = 1,
          duration = 840, isAvailable = True\<rparr>]
   \<and> freeAt (fst (calculateFreeTimeSlots [] jan15 jan22 defaultWorkingHours))
        (jan22 + 9 * hourInMs + 1800000)
   \<and> \<not> freeAt (fst (calculateFreeTimeSlots [staleClass] jan15 jan22 defaultWorkingHours))
        (jan22 + 9 * hourInMs + 1800000)
   \<and> freeAt (fst (calculateFreeTimeSlots [weeklyClass] jan15 jan22 defaultWorkingHours))
        (jan22 + 9 * hourInMs + 1800000)"
proof -
  have k: "fst (calculateFreeTimeSlots [weeklyClass] jan15 jan22 defaultWorkingHours)
      = fst (calculateFreeTimeSlots [mondayClass] jan15 jan22 defaultWorkingHours)"
    unfolding calculateFreeTimeSlots_def Let_def rangeDates_week
    by (simp add: sweep_defs example_defs)
  have w: "fst (calculateFreeTimeSlots [staleClass] jan15 jan22 defaultWorkingHours) =
    [\<lparr>startTime = 1705305600000, endTime = 1705914000000, dayOfWeek = 1,
       duration = 10140, isAvailable = True\<rparr>,
     \<lparr>startTime = 1705392000000, endTime = 1705442400000, dayOfWeek = 2,
       duration = 840, isAvailable = True\<rparr>,
     \<lparr>startTime = 1705478400000, endTime = 1705528800000, dayOfWeek = 3,
       duration = 840, isAvailable = True\<rparr>,
     \<lparr>startTime = 1705564800000, endTime = 1705615200000, dayOfWeek = 4,
       duration = 840, isAvailable = True\<rparr>,
     \<lparr>startTime = 1705651200000, endTime = 1705701600000, dayOfWeek = 5,
       duration = 840, isAvailable = True\<rparr>,
     \<lparr>startTime = 1705737600000, endTime = 1705788000000, dayOfWeek = 6,
       duration = 840, isAvailable = True\<rparr>,
     \<lparr>startTime = 1705824000000, endTime = 1705874400000, dayOfWeek = 0,
       duration = 840, isAvailable = True\<rparr>,
     \<lparr>startTime = 1705910400000, endTime = 1705914000000, dayOfWeek = 1,
       duration = 60, isAvailable = True\<rparr>,
     \<lparr>startTime = 1705919400000, endTime = 1705960800000, dayOfWeek = 1,
       duration = 690, isAvailable = True\<rparr>]"
    unfolding calculateFreeTimeSlots_def Let_def rangeDates_week
    by (simp add: sweep_defs example_defs)
  have d: "daySlots [staleClass] defaultWorkingHours jan22 =
       [\<lparr>startTime = 1705910400000, endTime = 1705914000000, dayOfWeek = 1,
          duration = 60, isAvailable = True\<rparr>,
        \<lparr>startTime = 1705919400000, endTime = 1705960800000, dayOfWeek = 1,
          duration = 690, isAvailable = True\<rparr>]"
    "daySlots [] defaultWorkingHours jan22 =
       [\<lparr>startTime = 1705910400000, endTime = 1705960800000, dayOfWeek = 1,
          duration = 840, isAvailable = True\<rparr>]"
    by (simp_all add: sweep_defs example_defs)
  have q: "isRecurring staleClass"
    "recurringPattern staleClass = Some \<lparr>frequency = ''weekly'', interval = 1,
        pattern_endDate = Some (jan15 + dayInMs), daysOfWeek = []\<rparr>"
    "jan15 + dayInMs < startTime staleClass"
    "inDateRangeQuery ''u1'' jan15 jan22 staleClass"
    "\<not> occursOnDate staleClass (jan22 + 9 * hourInMs)"
    by (simp_all add: occursOnDate_def inDateRangeQuery_def example_defs)
  show ?thesis
    unfolding w d k no_entry_two_mondays mondayClass_two_mondays using q
    by (simp add: freeAt_def jan22_def hourInMs_def)
qed

text \<open>
  C6. \<open>findCommonFreeSlots\<close> of no list is the empty list, and of one list is that
  list, unchanged.
\<close>

theorem common_slots_identity:
  "findCommonFreeSlots [] = [] \<and> findCommonFreeSlots [slots] = slots"
  by simp

text \<open>
  C7. For three lists of free slots, the set of common intervals, each taken as its
  start, its end and its duration, is the same for each of the six orders of the lists,
  and for the fold nested to the right.
\<close>

theorem common_slots_any_order:
  "commonIntervals (findCommonFreeSlots [A, C, B]) = commonIntervals (findCommonFreeSlots [A, B, C])
 \<and> commonIntervals (findCommonFreeSlots [B, A, C]) = commonIntervals (findCommonFreeSlots [A, B, C])
 \<and> commonIntervals (findCommonFreeSlots [B, C, A]) = commonIntervals (findCommonFreeSlots [A, B, C])
 \<and> commonIntervals (findCommonFreeSlots [C, A, B]) = commonIntervals (findCommonFreeSlots [A, B, C])
 \<and> commonIntervals (findCommonFreeSlots [C, B, A]) = commonIntervals (findCommonFreeSlots [A, B, C])
 \<and> commonIntervals (intersectFreeSlots A (intersectFreeSlots B C))
      = commonIntervals (findCommonFreeSlots [A, B, C])"
proof -
  let ?I = "\<lambda>X Y Z. commonIntervals (intersectFreeSlots (intersectFreeSlots X Y) Z)"
  have f: "findCommonFreeSlots [X, Y, Z] = intersectFreeSlots (intersectFreeSlots X Y) Z"
    for X Y Z by simp
  have bca: "?I B C A = ?I A B C" by (rule commonIntervals_three_rotate [symmetric])
  have cab: "?I C A B = ?I A B C"
    using commonIntervals_three_rotate [of C A B] bca by simp
  have bac: "?I B A C = ?I A B C" by (rule commonIntervals_three_swap)
  have acb: "?I A C B = ?I A B C"
    using commonIntervals_three_swap [of A C B] cab by simp
  have cba: "?I C B A = ?I A B C"
    using commonIntervals_three_swap [of C B A] bca by simp
  have nested: "commonIntervals (intersectFreeSlots A (intersectFreeSlots B C)) = ?I A B C"
    using commonIntervals_commute [of A "intersectFreeSlots B C"] bca by simp
  show ?thesis
    unfolding f using acb bac bca cab cba nested by simp
qed

text \<open>
  C7, for the slots as they are returned, fails: \<open>intersectFreeSlots\<close> copies the
  \<open>dayOfWeek\<close> of a common slot from the slot of its first list, so two orders can return
  the same interval under two labels. With working hours from 08:00 to 34:00 the free
  slot of Monday runs to 10:00 on Tuesday; its common slot with Tuesday's free slot,
  08:00 to 10:00 on Tuesday, is labelled Monday when the Monday list comes first and
  Tuesday when it comes last. The same happens with the default hours on the lists of
  the range from 15 to 22 January: Tuesday 08:00 to 22:00 labelled Monday is a common
  slot in one order and not in the other.
\<close>

theorem common_slot_labels_counterexample:
  "findCommonFreeSlots
     [fst (calculateFreeTimeSlots [] jan15 jan15 \<lparr>wh_start = 8, wh_end = 34\<rparr>),
      fst (calculateFreeTimeSlots [] (jan15 + dayInMs) (jan15 + dayInMs) defaultWorkingHours),
      fst (calculateFreeTimeSlots [] (jan15 + dayInMs) (jan15 + dayInMs) defaultWorkingHours)]
    = [\<lparr>startTime = 1705392000000, endTime = 1705399200000, dayOfWeek = 1,
         duration = 120, isAvailable = True\<rparr>]
   \<and> findCommonFreeSlots
     [fst (calculateFreeTimeSlots [] (jan15 + dayInMs) (jan15 + dayInMs) defaultWorkingHours),
      fst (calculateFreeTimeSlots [] (jan15 + dayInMs) (jan15 + dayInMs) defaultWorkingHours),
      fst (calculateFreeTimeSlots [] jan15 jan15 \<lparr>wh_start = 8, wh_end = 34\<rparr>)]
    = [\<lparr>startTime = 1705392000000, endTime = 1705399200000, dayOfWeek = 2,
         duration = 120, isAvailable = True\<rparr>]
   \<and> \<lparr>startTime = 1705392000000, endTime = 1705442400000, dayOfWeek = 1,
      duration = 840, isAvailable = True\<rparr>
     \<in> set (findCommonFreeSlots
          [fst (calculateFreeTimeSlots [mondayClass] jan15 jan22 defaultWorkingHours),
           fst (calculateFreeTimeSlots [] jan15 jan22 defaultWorkingHours),
           fst (calculateFreeTimeSlots [] jan15 jan22 defaultWorkingHours)])
   \<and> \<lparr>startTime = 1705392000000, endTime = 1705442400000, dayOfWeek = 1,
      duration = 840, isAvailable = True\<rparr>
     \<notin> set (findCommonFreeSlots
          [fst (calculateFreeTimeSlots [] jan15 jan22 defaultWorkingHours),
           fst (calculateFreeTimeSlots [] jan15 jan22 defaultWorkingHours),
           fst (calculateFreeTimeSlots [mondayClass] jan15 jan22 defaultWorkingHours)])"
proof -
  let ?A = "fst (calculateFreeTimeSlots [mondayClass] jan15 jan22 defaultWorkingHours)"
  let ?B = "fst (calculateFreeTimeSlots [] jan15 jan22 defaultWorkingHours)"
  let ?r = "\<lparr>startTime = 1705392000000, endTime = 1705442400000, dayOfWeek = 1,
      duration = 840, isAvailable = True\<rparr> :: IFreeTimeSlot"
  let ?giant = "\<lparr>startTime = 1705314600000, endTime = 1705960800000, dayOfWeek = 1,
      duration = 10770, isAvailable = True\<rparr> :: IFreeTimeSlot"
  let ?tue = "\<lparr>startTime = 1705392000000, endTime = 1705442400000, dayOfWeek = 2,
      duration = 840, isAvailable = True\<rparr> :: IFreeTimeSlot"
  have g: "?giant \<in> set ?A" unfolding mondayClass_two_mondays by simp
  have t: "?tue \<in> set ?B" unfolding no_entry_two_mondays by simp
  have p1: "?r \<in> set (pushOverlap ?giant ?tue)"
    unfolding pushOverlap_eq by simp
  then have ab: "?r \<in> set (intersectFreeSlots ?A ?B)"
    unfolding in_intersectFreeSlots using g t by blast
  have p2: "?r \<in> set (pushOverlap ?r ?tue)"
    unfolding pushOverlap_eq by simp
  then have abb: "?r \<in> set (intersectFreeSlots (intersectFreeSlots ?A ?B) ?B)"
    unfolding in_intersectFreeSlots [of _ "intersectFreeSlots ?A ?B"] using ab t by blast
  have no: "?r \<notin> set (intersectFreeSlots (intersectFreeSlots ?B ?B) ?A)"
  proof
    assume "?r \<in> set (intersectFreeSlots (intersectFreeSlots ?B ?B) ?A)"
    from in_intersectFreeSlots_origin [OF this] obtain x
      where x: "x \<in> set (intersectFreeSlots ?B ?B)" "dayOfWeek x = 1"
        "startTime x \<le> 1705392000000" "1705442400000 \<le> endTime x"
      by auto
    from in_intersectFreeSlots_origin [OF x(1)] obtain b
      where b: "b \<in> set ?B" "dayOfWeek b = 1"
        "startTime b \<le> 1705392000000" "1705442400000 \<le> endTime b"
      using x(2-4) by force
    then show False
      unfolding no_entry_two_mondays by auto
  qed
  have one: "rangeDates jan15 jan15 = [jan15]"
    "rangeDates (jan15 + dayInMs) (jan15 + dayInMs) = [jan15 + dayInMs]"
    by (simp_all add: rangeDates_single dayInMs_def)
  have m: "fst (calculateFreeTimeSlots [] jan15 jan15 \<lparr>wh_start = 8, wh_end = 34\<rparr>) =
      [\<lparr>startTime = 1705305600000, endTime = 1705399200000, dayOfWeek = 1,
         duration = 1560, isAvailable = True\<rparr>]"
    unfolding calculateFreeTimeSlots_def Let_def one
    by (simp add: sweep_defs example_defs)
  have u: "fst (calculateFreeTimeSlots [] (jan15 + dayInMs) (jan15 + dayInMs)
        defaultWorkingHours) =
      [\<lparr>startTime = 1705392000000, endTime = 1705442400000, dayOfWeek = 2,
         duration = 840, isAvailable = True\<rparr>]"
    unfolding calculateFreeTimeSlots_def Let_def one
    by (simp add: sweep_defs example_defs)
  have small: "findCommonFreeSlots
     [fst (calculateFreeTimeSlots [] jan15 jan15 \<lparr>wh_start = 8, wh_end = 34\<rparr>),
      fst (calculateFreeTimeSlots [] (jan15 + dayInMs) (jan15 + dayInMs) defaultWorkingHours),
      fst (calculateFreeTimeSlots [] (jan15 + dayInMs) (jan15 + dayInMs) defaultWorkingHours)]
    = [\<lparr>startTime = 1705392000000, endTime = 1705399200000, dayOfWeek = 1,
         duration = 120, isAvailable = True\<rparr>]"
    "findCommonFreeSlots
     [fst (calculateFreeTimeSlots [] (jan15 + dayInMs) (jan15 + dayInMs) defaultWorkingHours),
      fst (calculateFreeTimeSlots [] (jan15 + dayInMs) (jan15 + dayInMs) defaultWorkingHours),
      fst (calculateFreeTimeSlots [] jan15 jan15 \<lparr>wh_start = 8, wh_end = 34\<rparr>)]
    = [\<lparr>startTime = 1705392000000, endTime = 1705399200000, dayOfWeek = 2,
         duration = 120, isAvailable = True\<rparr>]"
    unfolding m u by (simp_all add: intersectFreeSlots_def pushOverlap_eq)
  show ?thesis
    using abb no small by simp
qed

text \<open>
  C8. The function has no clipping step. An entry that begins before the working
  hours and ends inside them, or begins inside and ends after them, is swept as if it
  were clipped: whenever every entry of the day's weekday ends at or after the opening
  and starts at or before the closing, every free interval of the day lies within the
  working hours.
\<close>

theorem day_sweep_within_window:
  assumes "\<forall>entry\<in>set es. dayOfWeek entry = getDay d \<longrightarrow>
      setHours d (wh_start wh) \<le> endTime entry \<and> startTime entry \<le> setHours d (wh_end wh)"
  shows "\<forall>slot\<in>set (daySlots (sort_key startTime es) wh d).
      setHours d (wh_start wh) \<le> startTime slot \<and> endTime slot \<le> setHours d (wh_end wh)"
proof
  fix slot assume "slot \<in> set (daySlots (sort_key startTime es) wh d)"
  then have m: "slot \<in> set (findGaps (setHours d (wh_start wh)) (setHours d (wh_end wh))
      (getDay d) (dayEntries (sort_key startTime es) d))"
    by (simp add: daySlots_def)
  show "setHours d (wh_start wh) \<le> startTime slot \<and> endTime slot \<le> setHours d (wh_end wh)"
    using in_findGaps_bounds [OF m] assms by (auto simp: set_dayEntries)
qed

theorem day_sweep_within_window_witness:
  "startTime dawnClass < setHours jan15 8 \<and> setHours jan15 8 \<le> endTime dawnClass
   \<and> startTime dawnClass \<le> setHours jan15 22
   \<and> daySlots (sort_key startTime [dawnClass]) defaultWorkingHours jan15 =
    [\<lparr>startTime = 1705309200000, endTime = 1705356000000, dayOfWeek = 1,
       duration = 780, isAvailable = True\<rparr>]
   \<and> list_all (\<lambda>slot. setHours jan15 8 \<le> startTime slot \<and> endTime slot \<le> setHours jan15 22)
       (daySlots (sort_key startTime [dawnClass]) defaultWorkingHours jan15)"
proof -
  have h: "\<forall>entry\<in>set [dawnClass]. dayOfWeek entry = getDay jan15 \<longrightarrow>
      setHours jan15 (wh_start defaultWorkingHours) \<le> endTime entry
      \<and> startTime entry \<le> setHours jan15 (wh_end defaultWorkingHours)"
    by (simp add: setHours_def example_defs)
  have v: "daySlots (sort_key startTime [dawnClass]) defaultWorkingHours jan15 =
    [\<lparr>startTime = 1705309200000, endTime = 1705356000000, dayOfWeek = 1,
       duration = 780, isAvailable = True\<rparr>]"
    by (simp add: sweep_defs example_defs)
  have "startTime dawnClass < setHours jan15 8" "setHours jan15 8 \<le> endTime dawnClass"
    "startTime dawnClass \<le> setHours jan15 22"
    by (simp_all add: setHours_def example_defs)
  then show ?thesis
    using day_sweep_within_window [OF h] v
    by (simp add: list_all_iff defaultWorkingHours_def)
qed

text \<open>
  C8, for an entry that is over before the working hours begin, fails:
  \<open>earlyClass\<close> (06:00 to 07:00) moves the cursor back to 07:00, and the free interval
  of the day is 07:00 to 22:00, which starts an hour before the opening at 08:00.
  Likewise \<open>nightClass\<close> (22:30 to 23:30) ends the first gap at 22:30, half an hour
  after the closing.
\<close>

theorem no_clipping_counterexample:
  "endTime earlyClass < setHours jan15 (wh_start defaultWorkingHours)
   \<and> fst (calculateFreeTimeSlots [earlyClass] jan15 jan15 defaultWorkingHours) =
    [\<lparr>startTime = 1705302000000, endTime = 1705356000000, dayOfWeek = 1,
       duration = 900, isAvailable = True\<rparr>]
   \<and> 1705302000000 < setHours jan15 (wh_start defaultWorkingHours)
   \<and> setHours jan15 (wh_end defaultWorkingHours) < startTime nightClass
   \<and> fst (calculateFreeTimeSlots [nightClass] jan15 jan15 defaultWorkingHours) =
    [\<lparr>startTime = 1705305600000, endTime = 1705357800000, dayOfWeek = 1,
       duration = 870, isAvailable = True\<rparr>]
   \<and> setHours jan15 (wh_end defaultWorkingHours) < 1705357800000"
proof -
  have "fst (calculateFreeTimeSlots [nightClass] jan15 jan15 defaultWorkingHours) =
    [\<lparr>startTime = 1705305600000, endTime = 1705357800000, dayOfWeek = 1,
       duration = 870, isAvailable = True\<rparr>]"
    unfolding calculateFreeTimeSlots_def Let_def rangeDates_one
    by (simp add: sweep_defs example_defs)
  then show ?thesis
    unfolding earlyClass_one_day by (simp add: setHours_def example_defs)
qed

text \<open>
  C9. \<open>calculateFreeTimeSlots\<close> has no failure: it returns a list of slots for every
  input, and the recurrence of an entry plays no part in it. Replacing \<open>isRecurring\<close> and
  \<open>recurringPattern\<close> of the entries by anything at all leaves the free slots as they
  were.
\<close>

theorem recurrence_metadata_not_read:
  "fst (calculateFreeTimeSlots
          (map (\<lambda>entry. entry\<lparr>isRecurring := r entry, recurringPattern := p entry\<rparr>) es)
          startDate endDate wh)
   = fst (calculateFreeTimeSlots es startDate endDate wh)"
proof -
  let ?h = "\<lambda>entry::ITimetableEntry. entry\<lparr>isRecurring := r entry, recurringPattern := p entry\<rparr>"
  have s: "sort_key startTime (map ?h es) = map ?h (sort_key startTime es)"
    by (rule sort_key_map_same) simp
  have d: "daySlots (map ?h xs) wh = daySlots xs wh" for xs
    by (rule ext, rule daySlots_map_same) simp_all
  show ?thesis
    unfolding calculateFreeTimeSlots_def Let_def s d by simp
qed

text \<open>
  C9, as a failure on malformed recurrence, does not hold: \<open>brokenClass\<close> has the
  interval 0 and a frequency that is none of weekly, biweekly and monthly, and the
  result is the ordinary one, the two free slots of \<open>mondayClass\<close>. The only reader of
  the pattern, \<open>occursOnDate\<close>, answers false for it and raises nothing.
\<close>

theorem malformed_recurrence_counterexample:
  "interval brokenPattern \<le> 0
   \<and> frequency brokenPattern \<notin> set [''weekly'', ''biweekly'', ''monthly'']
   \<and> recurringPattern brokenClass = Some brokenPattern
   \<and> \<not> occursOnDate brokenClass (startTime brokenClass)
   \<and> fst (calculateFreeTimeSlots [brokenClass] jan15 jan15 defaultWorkingHours) =
    [\<lparr>startTime = 1705305600000, endTime = 1705309200000, dayOfWeek = 1,
       duration = 60, isAvailable = True\<rparr>,
     \<lparr>startTime = 1705314600000, endTime = 1705356000000, dayOfWeek = 1,
       duration = 690, isAvailable = True\<rparr>]"
proof -
  have "fst (calculateFreeTimeSlots [brokenClass] jan15 jan15 defaultWorkingHours) =
    [\<lparr>startTime = 1705305600000, endTime = 1705309200000, dayOfWeek = 1,
       duration = 60, isAvailable = True\<rparr>,
     \<lparr>startTime = 1705314600000, endTime = 1705356000000, dayOfWeek = 1,
       duration = 690, isAvailable = True\<rparr>]"
    unfolding calculateFreeTimeSlots_def Let_def rangeDates_one
    by (simp add: sweep_defs example_defs)
  then show ?thesis
    by (simp add: occursOnDate_def getDay_def example_defs)
qed

text \<open>
  C10. \<open>calculateFreeTimeSlots\<close> sorts the array it is given, in place. After the
  call the array holds the same entries, ordered by start time, entries with equal
  start times in their former order; an array that was already in that order is left as
  it was. The free slots depend on the arguments only, and a second call, on the sorted
  array, returns the same slots.
\<close>

theorem input_array_sorted_in_place:
  "mset (snd (calculateFreeTimeSlots es startDate endDate wh)) = mset es
   \<and> sorted (map startTime (snd (calculateFreeTimeSlots es startDate endDate wh)))
   \<and> (\<forall>k. filter (\<lambda>entry. startTime entry = k)
              (snd (calculateFreeTimeSlots es startDate endDate wh))
          = filter (\<lambda>entry. startTime entry = k) es)
   \<and> (snd (calculateFreeTimeSlots es startDate endDate wh) = es
        \<longleftrightarrow> sorted (map startTime es))
   \<and> fst (calculateFreeTimeSlots (snd (calculateFreeTimeSlots es startDate endDate wh))
        startDate endDate wh)
      = fst (calculateFreeTimeSlots es startDate endDate wh)"
proof -
  have a: "snd (calculateFreeTimeSlots es startDate endDate wh) = sort_key startTime es"
    by (simp add: calculateFreeTimeSlots_def Let_def)
  have i: "sort_key startTime (sort_key startTime es) = sort_key startTime es"
    by (rule sort_key_id_if_sorted) simp
  have u: "sort_key startTime es = es \<longleftrightarrow> sorted (map startTime es)"
    by (metis sorted_sort_key sort_key_id_if_sorted)
  show ?thesis
    unfolding a
    by (simp add: sort_key_stable u) (simp add: calculateFreeTimeSlots_def Let_def i)
qed

theorem input_array_sorted_in_place_witness:
  "sorted (map startTime [earlyClass, mondayClass])
   \<and> snd (calculateFreeTimeSlots [earlyClass, mondayClass] jan15 jan15 defaultWorkingHours)
       = [earlyClass, mondayClass]"
proof -
  have s: "sorted (map startTime [earlyClass, mondayClass])"
    by (simp add: example_defs)
  show ?thesis
    using input_array_sorted_in_place [of "[earlyClass, mondayClass]" jan15 jan15
        defaultWorkingHours] s
    by simp
qed

text \<open>
  C10, as leaving the input in its order, fails: the array \<open>[mondayClass, earlyClass]\<close>
  is \<open>[earlyClass, mondayClass]\<close> after the call.
\<close>

theorem input_array_counterexample:
  "snd (calculateFreeTimeSlots [mondayClass, earlyClass] jan15 jan15 defaultWorkingHours)
     = [earlyClass, mondayClass]
   \<and> [earlyClass, mondayClass] \<noteq> [mondayClass, earlyClass]"
  by (simp add: calculateFreeTimeSlots_def Let_def example_defs)

end
